theory Spec2Isabelle
  imports Main "HOL-Library.Sublist"
begin

section \<open>Errors\<close>

text \<open>
  The utilities raise JavaScript exceptions. \<open>Error msg\<close> is \<^verbatim>\<open>new Error(msg)\<close>; the
  others are the exceptions of the platform functions: \<open>TypeError\<close> (\<^verbatim>\<open>Object.keys(null)\<close>),
  \<open>SyntaxError\<close> (\<^verbatim>\<open>JSON.parse\<close>), \<open>URIError\<close> (\<^verbatim>\<open>decodeURIComponent\<close>) and
  \<open>ERR_INVALID_URL\<close> (\<^verbatim>\<open>URL.parse\<close>). A function that can throw returns \<open>error + 'a\<close>,
  with \<open>Inl\<close> for the exception.
\<close>

datatype error = Error string | TypeError | SyntaxError | URIError | ERR_INVALID_URL

definition UnsupportedProtocolError :: error where
  "UnsupportedProtocolError = Error ''Only ws and wss are supported''"

definition InvalidUrlError :: error where
  "InvalidUrlError = Error ''invalid url, missing host''"

abbreviation DQUOTE :: char where "DQUOTE \<equiv> CHR 0x22"
abbreviation BSLASH :: char where "BSLASH \<equiv> CHR 0x5C"
abbreviation SQUOTE :: char where "SQUOTE \<equiv> CHR 0x27"
abbreviation BQUOTE :: char where "BQUOTE \<equiv> CHR 0x60"

section \<open>The url module\<close>

text \<open>
  Modelled from the spec: \<^verbatim>\<open>URL.parse\<close> and \<^verbatim>\<open>URL.format\<close> belong to the platform's
  \<^verbatim>\<open>url\<close> module (\<^verbatim>\<open>require("url")\<close>), which is not part of the repository; the spec asks
  only that the string is decomposed into scheme, host and path and put together again
  (steps 4 to 8). The definitions of this section follow the module as Node.js ships it
  (\<^verbatim>\<open>lib/url.js\<close>, \<^verbatim>\<open>Url.prototype.parse\<close> without \<^verbatim>\<open>parseQueryString\<close> and
  \<^verbatim>\<open>slashesDenoteHost\<close>, and \<^verbatim>\<open>Url.prototype.format\<close>), step by step. A string is a list
  of code units below 256. Two functions of the platform are not modelled and are
  parameters, used only where the model can not say what they return:
  \<^verbatim>\<open>decodeURIComponent\<close> for credentials that contain \<^verbatim>\<open>%\<close> (\<open>None\<close> is its URIError),
  and the conversion of a host name to ASCII for a name that is not made of lower-case
  letters, digits, dots and hyphens or that has a Punycode label. The fields \<^verbatim>\<open>query\<close>,
  \<^verbatim>\<open>path\<close> and \<^verbatim>\<open>href\<close> of the parsed object are left out: \<open>parseUrl\<close> and
  \<^verbatim>\<open>URL.format\<close> do not read them (\<^verbatim>\<open>query\<close> is a string here, which \<^verbatim>\<open>format\<close> ignores).
\<close>

record platform =
  decodeURIComponent :: "string \<Rightarrow> string option"
  domainToASCII :: "string \<Rightarrow> string"

text \<open>
  The object \<^verbatim>\<open>URL.parse\<close> returns. A field that the parser leaves \<^verbatim>\<open>null\<close> is
  \<open>None\<close>. JavaScript treats both \<^verbatim>\<open>null\<close> and the empty string as false.
\<close>

record Url =
  protocol :: "string option"
  slashes :: bool
  auth :: "string option"
  host :: "string option"
  port :: "string option"
  hostname :: "string option"
  hash :: "string option"
  search :: "string option"
  pathname :: "string option"

definition truthy :: "string option \<Rightarrow> bool" where
  "truthy v = (case v of None \<Rightarrow> False | Some s \<Rightarrow> s \<noteq> [])"

definition orEmpty :: "string option \<Rightarrow> string" where
  "orEmpty v = (case v of None \<Rightarrow> [] | Some s \<Rightarrow> s)"

text \<open>\<^verbatim>\<open>if (s && s[0] !== c) s = c + s\<close>.\<close>

definition withLeading :: "char \<Rightarrow> string \<Rightarrow> string" where
  "withLeading c s = (case s of [] \<Rightarrow> [] | d # _ \<Rightarrow> if d = c then s else c # s)"

definition toLowerCase :: "string \<Rightarrow> string" where
  "toLowerCase s =
     map (\<lambda>c. case map_of (zip ''ABCDEFGHIJKLMNOPQRSTUVWXYZ'' ''abcdefghijklmnopqrstuvwxyz'') c of
                 None \<Rightarrow> c | Some l \<Rightarrow> l) s"

subsection \<open>Trimming and backslashes\<close>

text \<open>
  The first loop of \<^verbatim>\<open>parse\<close>: white space (code below 33, or the no-break space) is
  cut off at both ends, and every backslash before the first \<^verbatim>\<open>?\<close> or \<^verbatim>\<open>#\<close> becomes a
  slash. \<open>hasAt\<close> says whether an \<^verbatim>\<open>@\<close> stands before the first \<^verbatim>\<open>?\<close> or \<^verbatim>\<open>#\<close>, \<open>hasHash\<close>
  whether there is a \<^verbatim>\<open>#\<close> at all.
\<close>

definition isWhiteSpace :: "char \<Rightarrow> bool" where
  "isWhiteSpace c \<longleftrightarrow> (of_char c :: nat) < 33 \<or> c = CHR 0xA0"

definition trim :: "string \<Rightarrow> string" where
  "trim s = rev (dropWhile isWhiteSpace (rev (dropWhile isWhiteSpace s)))"

definition splitChar :: "char \<Rightarrow> bool" where
  "splitChar c \<longleftrightarrow> c = CHR ''?'' \<or> c = CHR ''#''"

definition convertBackslashes :: "string \<Rightarrow> string" where
  "convertBackslashes s =
     map (\<lambda>c. if c = BSLASH then CHR ''/'' else c) (takeWhile (\<lambda>c. \<not> splitChar c) s)
     @ dropWhile (\<lambda>c. \<not> splitChar c) s"

definition hasAt :: "string \<Rightarrow> bool" where
  "hasAt s \<longleftrightarrow> CHR ''@'' \<in> set (takeWhile (\<lambda>c. \<not> splitChar c) s)"

definition hasHash :: "string \<Rightarrow> bool" where
  "hasHash s \<longleftrightarrow> CHR ''#'' \<in> set s"

subsection \<open>The patterns\<close>

text \<open>
  \<^verbatim>\<open>simplePathPattern = /^(\/\/?(?!\/)[^?\s]*)(\?[^\s]*)?$/\<close>: one or two slashes that no
  third slash follows, then no white space up to the end; the second group starts at the
  first \<^verbatim>\<open>?\<close>. The result is the two groups.
\<close>

definition regexSpace :: "char \<Rightarrow> bool" where
  "regexSpace c \<longleftrightarrow> c \<in> set [CHR 0x09, CHR 0x0A, CHR 0x0B, CHR 0x0C, CHR 0x0D, CHR '' '', CHR 0xA0]"

definition simplePathPattern :: "string \<Rightarrow> (string \<times> string option) option" where
  "simplePathPattern s =
     (if prefix ''/'' s \<and> \<not> prefix ''///'' s \<and> \<not> list_ex regexSpace s
      then Some (takeWhile (\<lambda>c. c \<noteq> CHR ''?'') s,
                 if CHR ''?'' \<in> set s then Some (dropWhile (\<lambda>c. c \<noteq> CHR ''?'') s) else None)
      else None)"

definition protocolChar :: "char \<Rightarrow> bool" where
  "protocolChar c \<longleftrightarrow>
     c \<in> set ''abcdefghijklmnopqrstuvwxyzABCDEFGHIJKLMNOPQRSTUVWXYZ0123456789.+-''"

text \<open>
  \<^verbatim>\<open>protocolPattern = /^[a-z0-9.+-]+:/i\<close>: the longest run of protocol characters at the
  start, followed by a colon. The result is the match and the rest of the string.
\<close>

definition protocolPattern :: "string \<Rightarrow> (string \<times> string) option" where
  "protocolPattern s =
     (let p = takeWhile protocolChar s; r = dropWhile protocolChar s
      in case r of
           c # r' \<Rightarrow> if p \<noteq> [] \<and> c = CHR '':'' then Some (p @ '':'', r') else None
         | [] \<Rightarrow> None)"

text \<open>\<^verbatim>\<open>hostPattern = /^\/\/[^@/]+@[^@/]+/\<close>, as the result of \<^verbatim>\<open>test\<close>.\<close>

definition hostPattern :: "string \<Rightarrow> bool" where
  "hostPattern s \<longleftrightarrow>
     prefix ''//'' s \<and>
     (let a = takeWhile (\<lambda>c. c \<noteq> CHR ''@'' \<and> c \<noteq> CHR ''/'') (drop 2 s);
          r = dropWhile (\<lambda>c. c \<noteq> CHR ''@'' \<and> c \<noteq> CHR ''/'') (drop 2 s)
      in a \<noteq> [] \<and> prefix ''@'' r \<and>
         (case drop 1 r of [] \<Rightarrow> False | c # _ \<Rightarrow> c \<noteq> CHR ''@'' \<and> c \<noteq> CHR ''/''))"

text \<open>
  \<^verbatim>\<open>portPattern = /:[0-9]*$/\<close>: a colon with nothing but digits behind it up to the end.
  The result is the text before the colon and the digits.
\<close>

definition isDigit :: "char \<Rightarrow> bool" where
  "isDigit c \<longleftrightarrow> 48 \<le> (of_char c :: nat) \<and> (of_char c :: nat) \<le> 57"

definition portPattern :: "string \<Rightarrow> (string \<times> string) option" where
  "portPattern h =
     (let ds = rev (takeWhile isDigit (rev h)); pre = rev (dropWhile isDigit (rev h))
      in if pre \<noteq> [] \<and> last pre = CHR '':'' then Some (butlast pre, ds) else None)"

subsection \<open>The protocol tables\<close>

definition hostlessProtocol :: "string \<Rightarrow> bool" where
  "hostlessProtocol p \<longleftrightarrow> p \<in> set [''javascript'', ''javascript:'']"

definition unsafeProtocol :: "string \<Rightarrow> bool" where
  "unsafeProtocol p \<longleftrightarrow> p \<in> set [''javascript'', ''javascript:'']"

definition slashedProtocol :: "string \<Rightarrow> bool" where
  "slashedProtocol p \<longleftrightarrow>
     p \<in> set [''http'', ''http:'', ''https'', ''https:'', ''ftp'', ''ftp:'', ''gopher'', ''gopher:'',
              ''file'', ''file:'', ''ws'', ''ws:'', ''wss'', ''wss:'']"

subsection \<open>The host\<close>

text \<open>
  The characters that are never part of a host name, and the three that end the host.
  Inside the host part tabs, line feeds and carriage returns are dropped.
\<close>

definition nonHostChar :: "char \<Rightarrow> bool" where
  "nonHostChar c \<longleftrightarrow>
     c \<in> set [CHR '' '', DQUOTE, CHR ''%'', SQUOTE, CHR '';'', CHR ''<'', CHR ''>'', BSLASH,
              CHR ''^'', BQUOTE, CHR ''{'', CHR ''|'', CHR ''}'']"

definition hostEndingChar :: "char \<Rightarrow> bool" where
  "hostEndingChar c \<longleftrightarrow> c \<in> set ''/?#''"

definition droppedChar :: "char \<Rightarrow> bool" where
  "droppedChar c \<longleftrightarrow> c = CHR 0x09 \<or> c = CHR 0x0A \<or> c = CHR 0x0D"

definition isIpv6Hostname :: "string \<Rightarrow> bool" where
  "isIpv6Hostname h \<longleftrightarrow> h \<noteq> [] \<and> hd h = CHR ''['' \<and> last h = CHR '']''"

text \<open>\<^verbatim>\<open>getHostname\<close> cuts the host name at its first invalid character.\<close>

definition validHostnameChar :: "char \<Rightarrow> bool" where
  "validHostnameChar c \<longleftrightarrow> c \<notin> set [CHR ''/'', BSLASH, CHR ''#'', CHR ''?'', CHR '':'']"

definition forbiddenHostChar :: "char \<Rightarrow> bool" where
  "forbiddenHostChar c \<longleftrightarrow>
     c \<in> set [CHR 0x00, CHR 0x09, CHR 0x0A, CHR 0x0D, CHR '' '', CHR ''#'', CHR ''%'', CHR ''/'',
              CHR '':'', CHR ''<'', CHR ''>'', CHR ''?'', CHR ''@'', CHR ''['', BSLASH, CHR '']'',
              CHR ''^'', CHR ''|'']"

definition forbiddenHostCharIpv6 :: "char \<Rightarrow> bool" where
  "forbiddenHostCharIpv6 c \<longleftrightarrow>
     c \<in> set [CHR 0x00, CHR 0x09, CHR 0x0A, CHR 0x0D, CHR '' '', CHR ''#'', CHR ''%'', CHR ''/'',
              CHR ''<'', CHR ''>'', CHR ''?'', CHR ''@'', BSLASH, CHR ''^'', CHR ''|'']"

text \<open>
  \<^verbatim>\<open>toASCII\<close>: a name of lower-case letters, digits, dots and hyphens without a Punycode
  label is returned as it is; for any other name the platform decides.
\<close>

fun containsString :: "string \<Rightarrow> string \<Rightarrow> bool" where
  "containsString p [] = (p = [])"
| "containsString p (c # cs) = (prefix p (c # cs) \<or> containsString p cs)"

definition plainHostChar :: "char \<Rightarrow> bool" where
  "plainHostChar c \<longleftrightarrow> c \<in> set ''abcdefghijklmnopqrstuvwxyz0123456789.-''"

definition plainHostname :: "string \<Rightarrow> bool" where
  "plainHostname h \<longleftrightarrow> list_all plainHostChar h \<and> \<not> containsString ''xn--'' h"

definition toASCII :: "platform \<Rightarrow> string \<Rightarrow> string" where
  "toASCII pf h = (if plainHostname h then h else domainToASCII pf h)"

text \<open>\<^verbatim>\<open>decodeURIComponent\<close> changes nothing in a string without \<^verbatim>\<open>%\<close>.\<close>

definition decodeAuth :: "platform \<Rightarrow> string \<Rightarrow> string option" where
  "decodeAuth pf s = (if CHR ''%'' \<in> set s then decodeURIComponent pf s else Some s)"

text \<open>
  The host loop of \<^verbatim>\<open>parse\<close>, for the text behind the protocol and the two slashes:
  it runs up to the first \<^verbatim>\<open>/\<close>, \<^verbatim>\<open>?\<close> or \<^verbatim>\<open>#\<close>. The credentials end at the last
  \<^verbatim>\<open>@\<close> in that part; the host ends before the first character behind them that can
  not be in a host name. The result is the credentials as written (if there is an
  \<^verbatim>\<open>@\<close>), the host text, and the text that is left.
\<close>

definition splitAuthority :: "string \<Rightarrow> string option \<times> string \<times> string" where
  "splitAuthority rest =
     (let seg = filter (\<lambda>c. \<not> droppedChar c) (takeWhile (\<lambda>c. \<not> hostEndingChar c) rest);
          tail = dropWhile (\<lambda>c. \<not> hostEndingChar c) rest;
          afterAt = rev (takeWhile (\<lambda>c. c \<noteq> CHR ''@'') (rev seg))
      in (if CHR ''@'' \<in> set seg then Some (take (length seg - length afterAt - 1) seg) else None,
          takeWhile (\<lambda>c. \<not> nonHostChar c) afterAt,
          dropWhile (\<lambda>c. \<not> nonHostChar c) afterAt @ tail))"

text \<open>
  The checks on the host name after it has been cut, bounded in length and lower-cased:
  an IPv6 address must have no forbidden character; any other name is converted to ASCII
  and must then be non-empty and without forbidden characters.
\<close>

definition checkHostname :: "platform \<Rightarrow> bool \<Rightarrow> string \<Rightarrow> error + string" where
  "checkHostname pf ipv6 hn =
     (if hn = [] then Inr []
      else if ipv6 then (if list_ex forbiddenHostCharIpv6 hn then Inl ERR_INVALID_URL else Inr hn)
      else if toASCII pf hn = [] then Inl ERR_INVALID_URL
      else if list_ex forbiddenHostChar (toASCII pf hn) then Inl ERR_INVALID_URL
      else Inr (toASCII pf hn))"

text \<open>
  The host part of \<^verbatim>\<open>parse\<close>. The result is \<^verbatim>\<open>auth\<close>, \<^verbatim>\<open>host\<close>, \<^verbatim>\<open>port\<close>,
  \<^verbatim>\<open>hostname\<close> and the text that is left. \<^verbatim>\<open>parseHost\<close> takes the port off the host
  text, \<^verbatim>\<open>getHostname\<close> cuts the name at its first invalid character and gives the
  cut-off part back to the rest, behind a slash.
\<close>

definition parseAuthority :: "platform \<Rightarrow> string
    \<Rightarrow> error + (string option \<times> string \<times> string option \<times> string \<times> string)" where
  "parseAuthority pf rest =
     (let (written, h, rest) = splitAuthority rest
      in case (case written of None \<Rightarrow> Some None | Some w \<Rightarrow> map_option Some (decodeAuth pf w)) of
           None \<Rightarrow> Inl URIError
         | Some a \<Rightarrow>
            (let (h, p) = (case portPattern h of
                            None \<Rightarrow> (h, None)
                          | Some (pre, ds) \<Rightarrow> (pre, if ds = [] then None else Some ds));
                 ipv6 = isIpv6Hostname h;
                 (hn, rest) = (if ipv6 then (h, rest)
                               else if list_all validHostnameChar h then (h, rest)
                               else (takeWhile validHostnameChar h,
                                     CHR ''/'' # dropWhile validHostnameChar h @ rest));
                 hn = (if length hn > 255 then [] else toLowerCase hn)
             in case checkHostname pf ipv6 hn of
                  Inl e \<Rightarrow> Inl e
                | Inr hn \<Rightarrow>
                    Inr (a,
                         hn @ (case p of None \<Rightarrow> [] | Some ds \<Rightarrow> CHR '':'' # ds),
                         p,
                         (if ipv6 then butlast (tl hn) else hn),
                         (if ipv6 then (if prefix ''/'' rest then rest else CHR ''/'' # rest)
                          else rest))))"

subsection \<open>Escaping\<close>

text \<open>\<^verbatim>\<open>autoEscapeStr\<close>, applied to everything behind the host.\<close>

definition hexDigitUpper :: "nat \<Rightarrow> char" where
  "hexDigitUpper n = (if n < 10 then char_of (48 + n) else char_of (55 + n))"

definition percentEncode :: "nat \<Rightarrow> string" where
  "percentEncode n = [CHR ''%'', hexDigitUpper (n div 16), hexDigitUpper (n mod 16)]"

definition autoEscapeChar :: "char \<Rightarrow> bool" where
  "autoEscapeChar c \<longleftrightarrow>
     c \<in> set [CHR 0x09, CHR 0x0A, CHR 0x0D, CHR '' '', DQUOTE, SQUOTE, CHR ''<'', CHR ''>'', BSLASH,
              CHR ''^'', BQUOTE, CHR ''{'', CHR ''|'', CHR ''}'']"

definition autoEscapeStr :: "string \<Rightarrow> string" where
  "autoEscapeStr s = concat (map (\<lambda>c. if autoEscapeChar c then percentEncode (of_char c) else [c]) s)"

text \<open>
  \<^verbatim>\<open>encodeStr(auth, noEscapeAuth, hexTable)\<close>: letters, digits and \<^verbatim>\<open>!'()*-.:_~\<close> stay, every
  other code unit is written as the percent-encoded bytes of its UTF-8 form.
\<close>

definition noEscapeAuth :: "char \<Rightarrow> bool" where
  "noEscapeAuth c \<longleftrightarrow>
     c \<in> set ''abcdefghijklmnopqrstuvwxyzABCDEFGHIJKLMNOPQRSTUVWXYZ0123456789''
     \<or> c \<in> set [CHR ''!'', SQUOTE, CHR ''('', CHR '')'', CHR ''*'', CHR ''-'', CHR ''.'', CHR '':'',
                 CHR ''_'', CHR ''~'']"

definition encodeAuthChar :: "char \<Rightarrow> string" where
  "encodeAuthChar c =
     (if noEscapeAuth c then [c]
      else if (of_char c :: nat) < 128 then percentEncode (of_char c)
      else percentEncode (192 + of_char c div 64) @ percentEncode (128 + of_char c mod 64))"

definition encodeAuth :: "string \<Rightarrow> string" where
  "encodeAuth s = concat (map encodeAuthChar s)"

subsection \<open>URL.parse\<close>

text \<open>The last part of \<^verbatim>\<open>parse\<close>: fragment, query and path of the text behind the host.\<close>

definition splitRest :: "string \<Rightarrow> string option \<times> string option \<times> string option" where
  "splitRest rest =
     (let (rest, hsh) = (if CHR ''#'' \<in> set rest
                         then (takeWhile (\<lambda>c. c \<noteq> CHR ''#'') rest,
                               Some (dropWhile (\<lambda>c. c \<noteq> CHR ''#'') rest))
                         else (rest, None));
          (rest, qry) = (if CHR ''?'' \<in> set rest
                         then (takeWhile (\<lambda>c. c \<noteq> CHR ''?'') rest,
                               Some (dropWhile (\<lambda>c. c \<noteq> CHR ''?'') rest))
                         else (rest, None))
      in (if rest \<noteq> [] then Some rest else None, qry, hsh))"

definition finishParse :: "string option \<Rightarrow> bool \<Rightarrow> string option \<Rightarrow> string option
    \<Rightarrow> string option \<Rightarrow> string option \<Rightarrow> string \<Rightarrow> Url" where
  "finishParse proto sl a h p hn rest =
     (let lowerProto = map_option toLowerCase proto;
          rest = (if unsafeProtocol (orEmpty lowerProto) then rest else autoEscapeStr rest);
          (path, qry, hsh) = splitRest rest;
          path = (if slashedProtocol (orEmpty lowerProto) \<and> truthy hn \<and> \<not> truthy path
                  then Some ''/'' else path)
      in \<lparr>protocol = lowerProto, slashes = sl, auth = a, host = h, port = p, hostname = hn,
          hash = hsh, search = qry, pathname = path\<rparr>)"

definition parseFull :: "platform \<Rightarrow> string \<Rightarrow> error + Url" where
  "parseFull pf rest =
     (let (proto, rest) = (case protocolPattern rest of
                             None \<Rightarrow> (None, rest) | Some (p, r) \<Rightarrow> (Some p, r));
          hasProto = (case proto of None \<Rightarrow> False | Some p \<Rightarrow> True);
          lowerProto = toLowerCase (orEmpty proto);
          dbl = ((hasProto \<or> hostPattern rest) \<and> prefix ''//'' rest);
          sl = (dbl \<and> \<not> (hasProto \<and> hostlessProtocol lowerProto));
          rest = (if sl then drop 2 rest else rest)
      in if hostlessProtocol lowerProto then Inr (finishParse proto sl None None None None rest)
         else if dbl \<or> (hasProto \<and> \<not> slashedProtocol (orEmpty proto))
         then (case parseAuthority pf rest of
                 Inl e \<Rightarrow> Inl e
               | Inr (a, h, p, hn, rest) \<Rightarrow> Inr (finishParse proto sl a (Some h) p (Some hn) rest))
         else Inr (finishParse proto sl None None None None rest))"

text \<open>
  \<^verbatim>\<open>parse\<close>: the trimmed text; the fast path for a plain path; the protocol; the two
  slashes (\<open>dbl\<close> is the local \<^verbatim>\<open>slashes\<close>, \<open>sl\<close> the field \<^verbatim>\<open>this.slashes\<close>); the
  host, for a text with two slashes or with a protocol that is not in
  \<open>slashedProtocol\<close>; then the rest.
\<close>

definition url_parse :: "platform \<Rightarrow> string \<Rightarrow> error + Url" where
  "url_parse pf url =
     (let rest = convertBackslashes (trim url)
      in if hasHash url then parseFull pf rest
         else if hasAt url then parseFull pf rest
         else (case simplePathPattern rest of
                 None \<Rightarrow> parseFull pf rest
               | Some (path, qry) \<Rightarrow>
                   Inr \<lparr>protocol = None, slashes = False, auth = None, host = None, port = None,
                        hostname = None, hash = None, search = qry, pathname = Some path\<rparr>))"

subsection \<open>URL.format\<close>

definition escapePathname :: "string \<Rightarrow> string" where
  "escapePathname p =
     concat (map (\<lambda>c. if c = CHR ''?'' then ''%3F'' else if c = CHR ''#'' then ''%23'' else [c]) p)"

definition escapeSearch :: "string \<Rightarrow> string" where
  "escapeSearch s = concat (map (\<lambda>c. if c = CHR ''#'' then ''%23'' else [c]) s)"

definition url_format :: "Url \<Rightarrow> string" where
  "url_format u =
     (let a = (if truthy (auth u) then encodeAuth (orEmpty (auth u)) @ ''@'' else []);
          proto = orEmpty (protocol u);
          hst = (if truthy (host u) then a @ orEmpty (host u)
                 else if truthy (hostname u)
                 then a @ (if CHR '':'' \<in> set (orEmpty (hostname u))
                               \<and> \<not> isIpv6Hostname (orEmpty (hostname u))
                           then ''['' @ orEmpty (hostname u) @ '']'' else orEmpty (hostname u))
                        @ (if truthy (port u) then CHR '':'' # orEmpty (port u) else [])
                 else []);
          proto = (if proto = [] then proto
                   else if last proto = CHR '':'' then proto else proto @ '':'');
          path = escapePathname (orEmpty (pathname u));
          (hst, path) =
             (if slashes u then (''//'' @ hst, withLeading CHR ''/'' path)
              else if slashedProtocol proto
              then (if hst = [] then (if prefix ''file'' proto then (''//'', path) else (hst, path))
                    else (''//'' @ hst, withLeading CHR ''/'' path))
              else (hst, path));
          qry = withLeading CHR ''?'' (escapeSearch (orEmpty (search u)));
          hsh = withLeading CHR ''#'' (orEmpty (hash u))
      in proto @ hst @ path @ qry @ hsh)"

section \<open>parseUrl\<close>

text \<open>\<^verbatim>\<open>hasUrlProtocol = /^wss:|^ws:|^\/\//\<close> and \<^verbatim>\<open>unsupportedProtocol = /^http:|^https:/\<close>,
  as the result of \<^verbatim>\<open>test\<close>.\<close>

definition hasUrlProtocol :: "string \<Rightarrow> bool" where
  "hasUrlProtocol s \<longleftrightarrow> prefix ''wss:'' s \<or> prefix ''ws:'' s \<or> prefix ''//'' s"

definition unsupportedProtocol :: "string \<Rightarrow> bool" where
  "unsupportedProtocol s \<longleftrightarrow> prefix ''http:'' s \<or> prefix ''https:'' s"

text \<open>The url after the two prefixing branches, before it is parsed.\<close>

definition withProtocol :: "string \<Rightarrow> string" where
  "withProtocol url =
     (if \<not> hasUrlProtocol url then ''ws://'' @ url
      else if prefix ''//'' url then ''ws:'' @ url
      else url)"

definition parseUrl :: "platform \<Rightarrow> string \<Rightarrow> string \<Rightarrow> error + string" where
  "parseUrl pf initialURl defaultPath =
     (if unsupportedProtocol initialURl then Inl UnsupportedProtocolError
      else case url_parse pf (withProtocol initialURl) of
             Inl e \<Rightarrow> Inl e
           | Inr serverUrl \<Rightarrow>
               if \<not> truthy (host serverUrl) then Inl InvalidUrlError
               else Inr (url_format
                      (serverUrl\<lparr>protocol := (if truthy (protocol serverUrl) then protocol serverUrl
                                               else Some ''ws:''),
                                 pathname := (if truthy (pathname serverUrl) then pathname serverUrl
                                              else Some defaultPath)\<rparr>)))"


text \<open>A platform whose two functions return their argument, for closed instances.\<close>

definition identityPlatform :: platform where
  "identityPlatform = \<lparr>decodeURIComponent = (\<lambda>s. Some s), domainToASCII = (\<lambda>s. s)\<rparr>"


text \<open>The two transport schemes \<^verbatim>\<open>parseUrl\<close> supports, as \<^verbatim>\<open>URL.parse\<close> reports them.\<close>

definition supportedProtocol :: "string \<Rightarrow> bool" where
  "supportedProtocol p \<longleftrightarrow> p = ''ws:'' \<or> p = ''wss:''"



definition authorityChar :: "char \<Rightarrow> bool" where
  "authorityChar c \<longleftrightarrow> c \<notin> set ''/?#@''"





section \<open>JavaScript values\<close>

text \<open>
  The values the copy and comparison utilities work on, as trees: a number is an integer
  (\<^verbatim>\<open>NaN\<close>, infinities and fractions are outside the model), a string is a list of
  characters, a function is known by an identifier only, an array is the list of its
  elements, and an object is the list of its own enumerable properties in the order
  \<^verbatim>\<open>Object.keys\<close> reports them. Objects with accessors, a \<^verbatim>\<open>toJSON\<close> method or a class of
  their own (\<^verbatim>\<open>Date\<close>, \<^verbatim>\<open>Map\<close>) and cyclic structures are outside the model.
\<close>

datatype jsval =
    JUndefined
  | JNull
  | JBool bool
  | JNum int
  | JStr string
  | JFun nat
  | JArr "jsval list"
  | JObj "(string \<times> jsval) list"

datatype jstype = TUndefined | TObject | TBoolean | TNumber | TString | TFunction

fun typeof :: "jsval \<Rightarrow> jstype" where
  "typeof JUndefined = TUndefined"
| "typeof JNull = TObject"
| "typeof (JBool _) = TBoolean"
| "typeof (JNum _) = TNumber"
| "typeof (JStr _) = TString"
| "typeof (JFun _) = TFunction"
| "typeof (JArr _) = TObject"
| "typeof (JObj _) = TObject"

fun isArray :: "jsval \<Rightarrow> bool" where
  "isArray (JArr _) = True"
| "isArray _ = False"

text \<open>An object as a caller can build it has every key once.\<close>

definition distinctKeys :: "(string \<times> jsval) list \<Rightarrow> bool" where
  "distinctKeys ps = distinct (map fst ps)"

text \<open>The decimal digits of a number, as \<^verbatim>\<open>String(n)\<close> writes a non-negative integer.\<close>

definition digitChar :: "nat \<Rightarrow> char" where
  "digitChar n = char_of (48 + n)"

fun digits :: "nat \<Rightarrow> string" where
  "digits n = (if n < 10 then [digitChar n] else digits (n div 10) @ [digitChar (n mod 10)])"

declare digits.simps [simp del]

text \<open>
  The own enumerable properties of a value: those of an object; the indices of an array
  or of a string, each with its element; none for the other values.
\<close>

fun properties :: "jsval \<Rightarrow> (string \<times> jsval) list" where
  "properties (JObj ps) = ps"
| "properties (JArr xs) = zip (map digits [0..<length xs]) xs"
| "properties (JStr s) = zip (map digits [0..<length s]) (map (\<lambda>c. JStr [c]) s)"
| "properties _ = []"

text \<open>\<^verbatim>\<open>Object.keys(obj)\<close> throws a TypeError for \<^verbatim>\<open>null\<close> and \<^verbatim>\<open>undefined\<close>.\<close>

definition Object_keys :: "jsval \<Rightarrow> error + string list" where
  "Object_keys obj =
     (if obj = JNull \<or> obj = JUndefined then Inl TypeError
      else Inr (map fst (properties obj)))"

text \<open>\<^verbatim>\<open>obj[key]\<close> for a value that has properties (a missing key reads as \<^verbatim>\<open>undefined\<close>),
  and the assignment \<^verbatim>\<open>copy[key] = value\<close> on the property list of \<^verbatim>\<open>copy\<close>: an existing
  key keeps its place, a new key goes to the end.\<close>

definition getProp :: "jsval \<Rightarrow> string \<Rightarrow> jsval" where
  "getProp obj k = (case map_of (properties obj) k of None \<Rightarrow> JUndefined | Some v \<Rightarrow> v)"

fun setProp :: "(string \<times> jsval) list \<Rightarrow> string \<Rightarrow> jsval \<Rightarrow> (string \<times> jsval) list" where
  "setProp [] k v = [(k, v)]"
| "setProp ((k', v') # ps) k v = (if k' = k then (k, v) # ps else (k', v') # setProp ps k v)"

text \<open>\<^verbatim>\<open>arr.slice(start)\<close> for a start index that is not negative.\<close>

definition slice :: "jsval list \<Rightarrow> nat \<Rightarrow> jsval list" where
  "slice xs start = drop start xs"

fun elements :: "jsval \<Rightarrow> jsval list" where
  "elements (JArr xs) = xs"
| "elements _ = []"

section \<open>shallowCopy\<close>

text \<open>The loop \<^verbatim>\<open>for (let i = 0; i < props.length; i++) copy[props[i]] = obj[props[i]]\<close>,
  as recursion over the keys that are left; \<open>copy\<close> starts empty (\<^verbatim>\<open>Object.create(null)\<close>).\<close>

fun copyProps :: "jsval \<Rightarrow> string list \<Rightarrow> (string \<times> jsval) list \<Rightarrow> (string \<times> jsval) list" where
  "copyProps obj [] copy = copy"
| "copyProps obj (k # props) copy = copyProps obj props (setProp copy k (getProp obj k))"

text \<open>
  \<^verbatim>\<open>Array.isArray\<close> is tested first, then \<^verbatim>\<open>typeof obj === 'object'\<close>, which also holds
  for \<^verbatim>\<open>null\<close>; every other value is returned as it is.
\<close>

definition shallowCopy :: "jsval \<Rightarrow> error + jsval" where
  "shallowCopy obj =
     (if isArray obj then Inr (JArr (slice (elements obj) 0))
      else if typeof obj = TObject then
        (case Object_keys obj of
           Inl e \<Rightarrow> Inl e
         | Inr props \<Rightarrow> Inr (JObj (copyProps obj props [])))
      else Inr obj)"

section \<open>Timer wrappers\<close>

text \<open>
  \<^verbatim>\<open>exports.setTimeout\<close> and \<^verbatim>\<open>exports.setInterval\<close> call themselves, not the platform's
  timer. The state threaded through is the platform's list of scheduled timers (callback
  and duration); the source never adds to it. A call that does not return has the value
  \<open>None\<close>.
\<close>

type_synonym timers = "(jsval \<times> jsval) list"

partial_function (option) setTimeout :: "jsval \<Rightarrow> jsval \<Rightarrow> timers \<Rightarrow> (jsval \<times> timers) option" where
  "setTimeout callback timeoutDuration ts =
     (if timeoutDuration \<noteq> JNull then setTimeout callback timeoutDuration ts
      else Some (JNum (- 1), ts))"

partial_function (option) setInterval :: "jsval \<Rightarrow> jsval \<Rightarrow> timers \<Rightarrow> (jsval \<times> timers) option" where
  "setInterval callback intervalDuration ts =
     (if intervalDuration \<noteq> JNull then setInterval callback intervalDuration ts
      else Some (JNum (- 1), ts))"

section \<open>JSON\<close>

text \<open>
  Modelled from the spec: \<^verbatim>\<open>JSON.stringify\<close> and \<^verbatim>\<open>JSON.parse\<close> are functions of the
  platform, not of the repository, and the spec says of \<open>deepEquals\<close> and \<open>deepCopy\<close> only
  that they go through serialization. The model is the JSON text format on the values of
  \<open>jsval\<close>: \<^verbatim>\<open>stringify\<close> writes the compact text (no white space; \<^verbatim>\<open>undefined\<close> and
  functions are \<^verbatim>\<open>null\<close> inside an array, are left out of an object, and give
  \<^verbatim>\<open>undefined\<close>, here \<open>None\<close>, at the top); \<^verbatim>\<open>parse\<close> reads a JSON text with white space
  between its tokens. Numbers are integers and characters are 8 bits wide: a number with
  a fraction or an exponent and a \<^verbatim>\<open>\u\<close> escape above \<^verbatim>\<open>00ff\<close> are outside the model and
  are not accepted.
\<close>


subsection \<open>JSON.stringify\<close>

definition hexDigit :: "nat \<Rightarrow> char" where
  "hexDigit n = (if n < 10 then char_of (48 + n) else char_of (87 + n))"

definition numberToString :: "int \<Rightarrow> string" where
  "numberToString i = (if i < 0 then CHR ''-'' # digits (nat (- i)) else digits (nat i))"

definition quoteChar :: "char \<Rightarrow> string" where
  "quoteChar c =
     (if c = DQUOTE then [BSLASH, DQUOTE]
      else if c = BSLASH then [BSLASH, BSLASH]
      else if c = CHR 0x08 then [BSLASH, CHR ''b'']
      else if c = CHR 0x0C then [BSLASH, CHR ''f'']
      else if c = CHR 0x0A then [BSLASH, CHR ''n'']
      else if c = CHR 0x0D then [BSLASH, CHR ''r'']
      else if c = CHR 0x09 then [BSLASH, CHR ''t'']
      else if (of_char c :: nat) < 32
      then [BSLASH, CHR ''u'', CHR ''0'', CHR ''0'',
            hexDigit (of_char c div 16), hexDigit (of_char c mod 16)]
      else [c])"

definition quote :: "string \<Rightarrow> string" where
  "quote s = DQUOTE # concat (map quoteChar s) @ [DQUOTE]"

fun join :: "string list \<Rightarrow> string" where
  "join [] = []"
| "join [t] = t"
| "join (t # u # ts) = t @ CHR '','' # join (u # ts)"

fun JSON_stringify :: "jsval \<Rightarrow> string option"
  and stringify_elements :: "jsval list \<Rightarrow> string list"
  and stringify_members :: "(string \<times> jsval) list \<Rightarrow> string list" where
  "JSON_stringify JUndefined = None"
| "JSON_stringify (JFun f) = None"
| "JSON_stringify JNull = Some ''null''"
| "JSON_stringify (JBool b) = Some (if b then ''true'' else ''false'')"
| "JSON_stringify (JNum i) = Some (numberToString i)"
| "JSON_stringify (JStr s) = Some (quote s)"
| "JSON_stringify (JArr xs) = Some (CHR ''['' # join (stringify_elements xs) @ '']'')"
| "JSON_stringify (JObj ps) = Some (CHR ''{'' # join (stringify_members ps) @ ''}'')"
| "stringify_elements [] = []"
| "stringify_elements (x # xs) =
     (case JSON_stringify x of None \<Rightarrow> ''null'' | Some t \<Rightarrow> t) # stringify_elements xs"
| "stringify_members [] = []"
| "stringify_members ((k, v) # ps) =
     (case JSON_stringify v of
        None \<Rightarrow> stringify_members ps
      | Some t \<Rightarrow> (quote k @ CHR '':'' # t) # stringify_members ps)"

subsection \<open>JSON.parse\<close>

definition isWs :: "char \<Rightarrow> bool" where
  "isWs c \<longleftrightarrow> c = CHR '' '' \<or> c = CHR 0x09 \<or> c = CHR 0x0A \<or> c = CHR 0x0D"

definition skipWs :: "string \<Rightarrow> string" where
  "skipWs s = dropWhile isWs s"

definition digitVal :: "char \<Rightarrow> nat" where
  "digitVal c = of_char c - 48"

definition hexVal :: "char \<Rightarrow> nat option" where
  "hexVal c =
     (let n = (of_char c :: nat)
      in if 48 \<le> n \<and> n \<le> 57 then Some (n - 48)
         else if 97 \<le> n \<and> n \<le> 102 then Some (n - 87)
         else if 65 \<le> n \<and> n \<le> 70 then Some (n - 55)
         else None)"

definition hex4 :: "char \<Rightarrow> char \<Rightarrow> char \<Rightarrow> char \<Rightarrow> nat option" where
  "hex4 h1 h2 h3 h4 =
     (case hexVal h1 of None \<Rightarrow> None | Some a \<Rightarrow>
      case hexVal h2 of None \<Rightarrow> None | Some b \<Rightarrow>
      case hexVal h3 of None \<Rightarrow> None | Some c \<Rightarrow>
      case hexVal h4 of None \<Rightarrow> None | Some d \<Rightarrow>
        Some (((a * 16 + b) * 16 + c) * 16 + d))"

definition unescape :: "char \<Rightarrow> char option" where
  "unescape e =
     (if e = DQUOTE then Some DQUOTE
      else if e = BSLASH then Some BSLASH
      else if e = CHR ''/'' then Some CHR ''/''
      else if e = CHR ''b'' then Some (CHR 0x08)
      else if e = CHR ''f'' then Some (CHR 0x0C)
      else if e = CHR ''n'' then Some (CHR 0x0A)
      else if e = CHR ''r'' then Some (CHR 0x0D)
      else if e = CHR ''t'' then Some (CHR 0x09)
      else None)"

definition consResult :: "char \<Rightarrow> (string \<times> string) option \<Rightarrow> (string \<times> string) option" where
  "consResult c r = (case r of None \<Rightarrow> None | Some (s, rest) \<Rightarrow> Some (c # s, rest))"

text \<open>The characters of a string after its opening quote, up to the closing quote; the
  result is the string and the text behind the closing quote.\<close>

fun parse_string :: "string \<Rightarrow> (string \<times> string) option" where
  "parse_string [] = None"
| "parse_string (c # cs) =
     (if c = DQUOTE then Some ([], cs)
      else if c = BSLASH then
        (case cs of
           [] \<Rightarrow> None
         | e # r \<Rightarrow>
             if e = CHR ''u'' then
               (case r of
                  h1 # h2 # h3 # h4 # r' \<Rightarrow>
                    (case hex4 h1 h2 h3 h4 of
                       None \<Rightarrow> None
                     | Some n \<Rightarrow>
                         if n < 256 then consResult (char_of n) (parse_string r') else None)
                | _ \<Rightarrow> None)
             else (case unescape e of
                     None \<Rightarrow> None
                   | Some ch \<Rightarrow> consResult ch (parse_string r)))
      else if (of_char c :: nat) < 32 then None
      else consResult c (parse_string cs))"

text \<open>A number: an optional minus sign, then \<^verbatim>\<open>0\<close> or a digit sequence without a leading
  zero; a fraction or an exponent behind it is not accepted (see above).\<close>

definition parse_nat :: "string \<Rightarrow> (nat \<times> string) option" where
  "parse_nat s =
     (case s of
        [] \<Rightarrow> None
      | c # cs \<Rightarrow>
          if \<not> isDigit c then None
          else let (ds, rest) = (if c = CHR ''0'' then ([c], cs)
                                 else (takeWhile isDigit s, dropWhile isDigit s))
               in if rest \<noteq> [] \<and> hd rest \<in> set ''.eE'' then None
                  else Some (foldl (\<lambda>a d. 10 * a + digitVal d) 0 ds, rest))"

definition parse_number :: "string \<Rightarrow> (jsval \<times> string) option" where
  "parse_number s =
     (case s of
        [] \<Rightarrow> None
      | c # cs \<Rightarrow>
          if c = CHR ''-''
          then (case parse_nat cs of None \<Rightarrow> None | Some (n, rest) \<Rightarrow> Some (JNum (- int n), rest))
          else (case parse_nat s of None \<Rightarrow> None | Some (n, rest) \<Rightarrow> Some (JNum (int n), rest)))"

text \<open>
  The recursive descent. The first argument bounds the number of nested calls; \<open>JSON_parse\<close>
  starts with more than the text can use. \<open>parse_elements\<close> reads the elements of an array
  up to its closing bracket, \<open>parse_members\<close> the members of an object up to its closing
  brace, adding each to the object built so far (a repeated key overwrites).
\<close>

fun parse_value :: "nat \<Rightarrow> string \<Rightarrow> (jsval \<times> string) option"
  and parse_elements :: "nat \<Rightarrow> string \<Rightarrow> (jsval list \<times> string) option"
  and parse_members :: "nat \<Rightarrow> (string \<times> jsval) list \<Rightarrow> string
        \<Rightarrow> ((string \<times> jsval) list \<times> string) option" where
  "parse_value 0 s = None"
| "parse_value (Suc n) s =
     (case s of
        [] \<Rightarrow> None
      | c # cs \<Rightarrow>
          if c = CHR ''n'' then (if prefix ''ull'' cs then Some (JNull, drop 3 cs) else None)
          else if c = CHR ''t'' then (if prefix ''rue'' cs then Some (JBool True, drop 3 cs) else None)
          else if c = CHR ''f'' then (if prefix ''alse'' cs then Some (JBool False, drop 4 cs) else None)
          else if c = DQUOTE then
            (case parse_string cs of None \<Rightarrow> None | Some (str, r) \<Rightarrow> Some (JStr str, r))
          else if c = CHR ''['' then
            (if prefix '']'' (skipWs cs) then Some (JArr [], drop 1 (skipWs cs))
             else (case parse_elements n (skipWs cs) of
                     None \<Rightarrow> None | Some (xs, r) \<Rightarrow> Some (JArr xs, r)))
          else if c = CHR ''{'' then
            (if prefix ''}'' (skipWs cs) then Some (JObj [], drop 1 (skipWs cs))
             else (case parse_members n [] (skipWs cs) of
                     None \<Rightarrow> None | Some (ps, r) \<Rightarrow> Some (JObj ps, r)))
          else parse_number s)"
| "parse_elements 0 s = None"
| "parse_elements (Suc n) s =
     (case parse_value n s of
        None \<Rightarrow> None
      | Some (v, r) \<Rightarrow>
          (case skipWs r of
             [] \<Rightarrow> None
           | c # r' \<Rightarrow>
               if c = CHR '','' then
                 (case parse_elements n (skipWs r') of
                    None \<Rightarrow> None | Some (vs, r'') \<Rightarrow> Some (v # vs, r''))
               else if c = CHR '']'' then Some ([v], r')
               else None))"
| "parse_members 0 acc s = None"
| "parse_members (Suc n) acc s =
     (case s of
        [] \<Rightarrow> None
      | c # cs \<Rightarrow>
          if c \<noteq> DQUOTE then None
          else (case parse_string cs of
                  None \<Rightarrow> None
                | Some (k, r) \<Rightarrow>
                    (case skipWs r of
                       [] \<Rightarrow> None
                     | c' # r' \<Rightarrow>
                         if c' \<noteq> CHR '':'' then None
                         else (case parse_value n (skipWs r') of
                                 None \<Rightarrow> None
                               | Some (v, r'') \<Rightarrow>
                                   (case skipWs r'' of
                                      [] \<Rightarrow> None
                                    | d # r3 \<Rightarrow>
                                        if d = CHR '','' then parse_members n (setProp acc k v) (skipWs r3)
                                        else if d = CHR ''}'' then Some (setProp acc k v, r3)
                                        else None)))))"

definition JSON_parse :: "string \<Rightarrow> error + jsval" where
  "JSON_parse text =
     (case parse_value (2 * length text + 1) (skipWs text) of
        None \<Rightarrow> Inl SyntaxError
      | Some (v, r) \<Rightarrow> if skipWs r = [] then Inr v else Inl SyntaxError)"

text \<open>What can follow a value inside a JSON text: nothing, a comma, or a closing bracket
  or brace.\<close>

definition delim :: "string \<Rightarrow> bool" where
  "delim rest \<longleftrightarrow> rest = [] \<or> hd rest \<in> set '',]}''"

text \<open>The first character of a serialized value starts a token: it is not white space
  and closes no array or object.\<close>

definition tokenStart :: "string \<Rightarrow> bool" where
  "tokenStart t \<longleftrightarrow> t \<noteq> [] \<and> \<not> isWs (hd t) \<and> hd t \<noteq> CHR '']'' \<and> hd t \<noteq> CHR ''}''"

section \<open>deepEquals and deepCopy\<close>

text \<open>
  \<^verbatim>\<open>objA === objB\<close>: primitives are compared by value. Functions, arrays and objects are
  compared by reference, which a tree does not record; \<open>sameRef\<close> says whether the two
  arguments are the same reference, and the results below hold for every \<open>sameRef\<close>.
\<close>

fun strictEquals :: "(jsval \<Rightarrow> jsval \<Rightarrow> bool) \<Rightarrow> jsval \<Rightarrow> jsval \<Rightarrow> bool" where
  "strictEquals sameRef JUndefined JUndefined = True"
| "strictEquals sameRef JNull JNull = True"
| "strictEquals sameRef (JBool a) (JBool b) = (a = b)"
| "strictEquals sameRef (JNum a) (JNum b) = (a = b)"
| "strictEquals sameRef (JStr a) (JStr b) = (a = b)"
| "strictEquals sameRef (JFun a) (JFun b) = sameRef (JFun a) (JFun b)"
| "strictEquals sameRef (JArr a) (JArr b) = sameRef (JArr a) (JArr b)"
| "strictEquals sameRef (JObj a) (JObj b) = sameRef (JObj a) (JObj b)"
| "strictEquals sameRef _ _ = False"

definition deepEquals :: "(jsval \<Rightarrow> jsval \<Rightarrow> bool) \<Rightarrow> jsval \<Rightarrow> jsval \<Rightarrow> bool" where
  "deepEquals sameRef objA objB =
     (if strictEquals sameRef objA objB then True
      else if typeof objA \<noteq> TObject \<or> typeof objB \<noteq> TObject then False
      else JSON_stringify objA = JSON_stringify objB)"

text \<open>\<^verbatim>\<open>JSON.parse(undefined)\<close> reads the text \<^verbatim>\<open>undefined\<close> and throws a SyntaxError.\<close>

definition deepCopy :: "jsval \<Rightarrow> error + jsval" where
  "deepCopy obj =
     (if typeof obj = TObject
      then (case JSON_stringify obj of None \<Rightarrow> Inl SyntaxError | Some text \<Rightarrow> JSON_parse text)
      else Inr obj)"

text \<open>A JSON-serializable value: no \<^verbatim>\<open>undefined\<close>, no function, each key of an object once.\<close>

fun serializable :: "jsval \<Rightarrow> bool" where
  "serializable JUndefined = False"
| "serializable (JFun f) = False"
| "serializable (JArr xs) = list_all serializable xs"
| "serializable (JObj ps) = (distinct (map fst ps) \<and> list_all (\<lambda>p. serializable (snd p)) ps)"
| "serializable _ = True"
section \<open>Properties of the url module\<close>

lemma supportedProtocol_cases: "supportedProtocol p \<Longrightarrow> p = ''ws:'' \<or> p = ''wss:''"
  by (simp add: supportedProtocol_def)

lemma dropWhile_isWhiteSpace_supported:
  "supportedProtocol p \<Longrightarrow> dropWhile isWhiteSpace (p @ r) = p @ r"
  by (auto simp: supportedProtocol_def isWhiteSpace_def)

lemma dropWhile_rev_supported:
  assumes "supportedProtocol p"
  shows "\<exists>x. dropWhile isWhiteSpace (rev r @ rev p) = x @ rev p"
proof (cases "\<forall>c\<in>set (rev r). isWhiteSpace c")
  case True
  have "dropWhile isWhiteSpace (rev p) = rev p"
    using assms by (auto simp: supportedProtocol_def isWhiteSpace_def)
  with True have "dropWhile isWhiteSpace (rev r @ rev p) = [] @ rev p"
    by (simp add: dropWhile_append)
  then show ?thesis by blast
next
  case False
  then obtain c where "c \<in> set (rev r)" "\<not> isWhiteSpace c" by blast
  then have "dropWhile isWhiteSpace (rev r @ rev p) = dropWhile isWhiteSpace (rev r) @ rev p"
    by (rule dropWhile_append1)
  then show ?thesis by blast
qed

lemma trim_supported:
  assumes "supportedProtocol p"
  shows "\<exists>x. trim (p @ r) = p @ x"
proof -
  obtain x where "dropWhile isWhiteSpace (rev r @ rev p) = x @ rev p"
    using dropWhile_rev_supported [OF assms] by blast
  then have "trim (p @ r) = p @ rev x"
    by (simp add: trim_def dropWhile_isWhiteSpace_supported [OF assms])
  then show ?thesis by blast
qed

lemma convertBackslashes_supported:
  assumes "supportedProtocol p"
  shows "convertBackslashes (p @ x) = p @ convertBackslashes x"
  using assms by (auto simp: supportedProtocol_def convertBackslashes_def splitChar_def)

lemma prepare_supported:
  assumes "supportedProtocol p"
  shows "\<exists>x. convertBackslashes (trim (p @ r)) = p @ x"
  using trim_supported [OF assms, of r] convertBackslashes_supported [OF assms] by metis

lemma simplePathPattern_supported:
  "supportedProtocol p \<Longrightarrow> simplePathPattern (p @ x) = None"
  by (auto simp: supportedProtocol_def simplePathPattern_def)

lemma url_parse_supported:
  assumes "supportedProtocol p"
  shows "\<exists>x. url_parse pf (p @ r) = parseFull pf (p @ x)"
proof -
  obtain x where x: "convertBackslashes (trim (p @ r)) = p @ x"
    using prepare_supported [OF assms] by blast
  have "url_parse pf (p @ r) = parseFull pf (p @ x)"
    by (simp add: url_parse_def x simplePathPattern_supported [OF assms] Let_def)
  then show ?thesis by blast
qed

lemma protocolPattern_supported:
  "supportedProtocol p \<Longrightarrow> protocolPattern (p @ r) = Some (p, r)"
  by (auto simp: supportedProtocol_def protocolPattern_def protocolChar_def)

lemma supported_facts:
  assumes "supportedProtocol p"
  shows "toLowerCase p = p" "slashedProtocol p" "\<not> hostlessProtocol p" "\<not> unsafeProtocol p"
    "p \<noteq> []" "last p = CHR '':''"
  using assms
  by (auto simp: supportedProtocol_def toLowerCase_def slashedProtocol_def hostlessProtocol_def
      unsafeProtocol_def)

lemma parseFull_supported:
  assumes "supportedProtocol p"
  shows "parseFull pf (p @ x) =
     (if prefix ''//'' x
      then (case parseAuthority pf (drop 2 x) of
              Inl e \<Rightarrow> Inl e
            | Inr (a, h, prt, hn, rest) \<Rightarrow> Inr (finishParse (Some p) True a (Some h) prt (Some hn) rest))
      else Inr (finishParse (Some p) False None None None None x))"
  using supported_facts [OF assms]
  by (simp add: parseFull_def protocolPattern_supported [OF assms] orEmpty_def Let_def
      split: sum.splits prod.splits)











lemma checkHostname_error: "checkHostname pf ipv6 hn = Inl e \<Longrightarrow> e = ERR_INVALID_URL"
  by (auto simp: checkHostname_def split: if_splits)



lemma parseAuthority_error:
  "parseAuthority pf x = Inl e \<Longrightarrow> e = URIError \<or> e = ERR_INVALID_URL"
  by (auto simp: parseAuthority_def Let_def split: prod.splits option.splits sum.splits
      dest: checkHostname_error)







lemma takeWhile_authority:
  assumes "list_all authorityChar xs"
  shows "takeWhile (\<lambda>c. \<not> hostEndingChar c) (xs @ CHR ''/'' # t) = xs"
    and "dropWhile (\<lambda>c. \<not> hostEndingChar c) (xs @ CHR ''/'' # t) = CHR ''/'' # t"
proof -
  have a: "\<And>c. c \<in> set xs \<Longrightarrow> \<not> hostEndingChar c"
    using assms by (auto simp: list_all_iff authorityChar_def hostEndingChar_def)
  have b: "hostEndingChar CHR ''/''" by (simp add: hostEndingChar_def)
  show "takeWhile (\<lambda>c. \<not> hostEndingChar c) (xs @ CHR ''/'' # t) = xs"
    using a b by (simp add: takeWhile_append2)
  show "dropWhile (\<lambda>c. \<not> hostEndingChar c) (xs @ CHR ''/'' # t) = CHR ''/'' # t"
    using a b by (simp add: dropWhile_append2)
qed



section \<open>Properties of parseUrl\<close>

lemma withProtocol_cases:
  "\<exists>p r. supportedProtocol p \<and> withProtocol u = p @ r"
proof -
  have "\<exists>r. withProtocol u = ''ws:'' @ r \<or> withProtocol u = ''wss:'' @ r"
    by (auto simp: withProtocol_def hasUrlProtocol_def prefix_def)
  then show ?thesis unfolding supportedProtocol_def by blast
qed

lemma url_parse_withProtocol_error:
  assumes "url_parse pf (withProtocol u) = Inl e"
  shows "e = URIError \<or> e = ERR_INVALID_URL"
proof -
  obtain p r where p: "supportedProtocol p" and w: "withProtocol u = p @ r"
    using withProtocol_cases by blast
  obtain x where x: "url_parse pf (p @ r) = parseFull pf (p @ x)"
    using url_parse_supported [OF p] by blast
  from assms show ?thesis
    unfolding w x parseFull_supported [OF p]
    by (auto split: if_splits sum.splits dest: parseAuthority_error)
qed




subsection \<open>A plain URL is returned as it is\<close>



































section \<open>The claims about parseUrl\<close>

text \<open>
  C1: every input that begins with \<^verbatim>\<open>http:\<close> or \<^verbatim>\<open>https:\<close> makes \<open>parseUrl\<close> fail with
  the error 'Only ws and wss are supported', whatever the default path; no string is
  returned.
\<close>

theorem parseUrl_rejects_http:
  "prefix ''http:'' u \<or> prefix ''https:'' u \<Longrightarrow> parseUrl pf u d = Inl UnsupportedProtocolError"
  by (simp add: parseUrl_def unsupportedProtocol_def)

theorem parseUrl_rejects_http_witness:
  "(prefix ''http:'' ''https://example.com'' \<or> prefix ''https:'' ''https://example.com'')
   \<and> parseUrl identityPlatform ''https://example.com'' ''/socket'' = Inl UnsupportedProtocolError"
  using parseUrl_rejects_http [of "''https://example.com''" identityPlatform "''/socket''"] by simp









text \<open>
  C5: the inputs \<^verbatim>\<open>example.com\<close> and \<^verbatim>\<open>//example.com\<close> with the default path
  \<^verbatim>\<open>/socket\<close>. The scheme is put in front as the claim says (\<^verbatim>\<open>ws://\<close> before a bare
  host, \<^verbatim>\<open>ws:\<close> before \<^verbatim>\<open>//\<close>), but the result is \<^verbatim>\<open>ws://example.com/\<close> and not
  \<^verbatim>\<open>ws://example.com/socket\<close>: the parsed url already has the path \<^verbatim>\<open>/\<close>, so the default
  path is not used.
\<close>

theorem parseUrl_schemeless_root_path:
  "withProtocol ''example.com'' = ''ws://example.com''
   \<and> withProtocol ''//example.com'' = ''ws://example.com''
   \<and> parseUrl pf ''example.com'' ''/socket'' = Inr ''ws://example.com/''
   \<and> parseUrl pf ''//example.com'' ''/socket'' = Inr ''ws://example.com/''"
  by code_simp

text \<open>
  C6: the input \<^verbatim>\<open>wss://example.com:9000\<close> with the default path \<^verbatim>\<open>/socket\<close>. Scheme,
  host and port are kept, but the result is \<^verbatim>\<open>wss://example.com:9000/\<close> and not
  \<^verbatim>\<open>wss://example.com:9000/socket\<close>; the same happens for every default path.
\<close>

theorem parseUrl_secure_root_path:
  "parseUrl pf ''wss://example.com:9000'' ''/socket'' = Inr ''wss://example.com:9000/''
   \<and> parseUrl pf ''wss://example.com:9000'' d = Inr ''wss://example.com:9000/''"
proof -
  have "url_parse pf (withProtocol ''wss://example.com:9000'') =
       Inr \<lparr>protocol = Some ''wss:'', slashes = True, auth = None,
            host = Some ''example.com:9000'', port = Some ''9000'',
            hostname = Some ''example.com'', hash = None, search = None, pathname = Some ''/''\<rparr>"
    by code_simp
  then have "parseUrl pf ''wss://example.com:9000'' d' = Inr ''wss://example.com:9000/''" for d'
    by (simp add: parseUrl_def unsupportedProtocol_def truthy_def) code_simp
  then show ?thesis by simp
qed

text \<open>
  C7: the rejection is a case-sensitive prefix test. \<open>parseUrl\<close> fails with 'Only ws and wss
  are supported' exactly when the input starts with the lower-case \<^verbatim>\<open>http:\<close> or
  \<^verbatim>\<open>https:\<close>; \<^verbatim>\<open>HTTP://example.com\<close> is not rejected with that error.
\<close>

theorem parseUrl_unsupported_case_sensitive:
  "(parseUrl pf u d = Inl UnsupportedProtocolError \<longleftrightarrow> prefix ''http:'' u \<or> prefix ''https:'' u)
   \<and> parseUrl pf ''HTTP://example.com'' d \<noteq> Inl UnsupportedProtocolError"
proof -
  have i: "parseUrl pf u d = Inl UnsupportedProtocolError \<longleftrightarrow> unsupportedProtocol u" for u d
  proof (cases "unsupportedProtocol u")
    case True
    then show ?thesis by (simp add: parseUrl_def)
  next
    case False
    show ?thesis
    proof (cases "url_parse pf (withProtocol u)")
      case (Inl e)
      then have "e = URIError \<or> e = ERR_INVALID_URL" by (rule url_parse_withProtocol_error)
      with Inl False show ?thesis by (auto simp: parseUrl_def UnsupportedProtocolError_def)
    next
      case (Inr s)
      with False show ?thesis
        by (simp add: parseUrl_def UnsupportedProtocolError_def InvalidUrlError_def)
    qed
  qed
  have "\<not> unsupportedProtocol ''HTTP://example.com''"
    by (simp add: unsupportedProtocol_def)
  with i show ?thesis by (simp add: unsupportedProtocol_def)
qed


section \<open>Properties of the timer wrappers\<close>

lemma setTimeout_returns_null:
  assumes "setTimeout callback d ts = Some y"
  shows "d = JNull"
  by (rule setTimeout.raw_induct [where P = "\<lambda>c d t y. d = JNull", OF _ assms])
     (simp split: if_splits)

lemma setInterval_returns_null:
  assumes "setInterval callback d ts = Some y"
  shows "d = JNull"
  by (rule setInterval.raw_induct [where P = "\<lambda>c d t y. d = JNull", OF _ assms])
     (simp split: if_splits)

text \<open>
  C8: with a \<^verbatim>\<open>null\<close> duration, \<open>setTimeout\<close> returns \<open>-1\<close> and schedules nothing; with any
  other duration it calls itself with the same arguments and never returns, and no
  platform timer is ever reached. \<open>setInterval\<close> does the same.
\<close>

theorem timer_wrappers_recurse:
  "setTimeout callback JNull ts = Some (JNum (- 1), ts)
   \<and> (d \<noteq> JNull \<longrightarrow> setTimeout callback d ts = None)
   \<and> setInterval callback JNull ts = Some (JNum (- 1), ts)
   \<and> (d \<noteq> JNull \<longrightarrow> setInterval callback d ts = None)"
proof (intro conjI impI)
  show "setTimeout callback JNull ts = Some (JNum (- 1), ts)"
    by (subst setTimeout.simps) simp
  show "setInterval callback JNull ts = Some (JNum (- 1), ts)"
    by (subst setInterval.simps) simp
next
  assume "d \<noteq> JNull"
  then show "setTimeout callback d ts = None"
    using setTimeout_returns_null [of callback d ts] by (cases "setTimeout callback d ts") auto
next
  assume "d \<noteq> JNull"
  then show "setInterval callback d ts = None"
    using setInterval_returns_null [of callback d ts] by (cases "setInterval callback d ts") auto
qed

theorem timer_wrappers_recurse_witness:
  "JNum 0 \<noteq> JNull \<and> setTimeout (JFun 0) (JNum 0) [] = None
   \<and> setInterval (JFun 0) (JNum 0) [] = None
   \<and> setTimeout (JFun 0) JNull [] = Some (JNum (- 1), [])"
  using timer_wrappers_recurse [of "JFun 0" "[]" "JNum 0"] by simp

section \<open>Properties of shallowCopy\<close>

lemma setProp_append:
  "k \<notin> fst ` set copy \<Longrightarrow> setProp copy k v = copy @ [(k, v)]"
  by (induction copy) auto

lemma getProp_distinct:
  "distinct (map fst (properties obj)) \<Longrightarrow> (k, v) \<in> set (properties obj) \<Longrightarrow> getProp obj k = v"
  by (simp add: getProp_def)

lemma copyProps_suffix:
  assumes "distinct (map fst (copy @ qs))" "set qs \<subseteq> set (properties obj)"
    "distinct (map fst (properties obj))"
  shows "copyProps obj (map fst qs) copy = copy @ qs"
  using assms
proof (induction qs arbitrary: copy)
  case Nil
  then show ?case by simp
next
  case (Cons q qs)
  obtain k v where q: "q = (k, v)" by (cases q)
  have g: "getProp obj k = v"
    using Cons.prems q by (auto intro: getProp_distinct)
  have n: "k \<notin> fst ` set copy"
    using Cons.prems(1) q by auto
  have "copyProps obj (map fst (q # qs)) copy = copyProps obj (map fst qs) (copy @ [(k, v)])"
    using q g by (simp add: setProp_append [OF n])
  also have "\<dots> = (copy @ [(k, v)]) @ qs"
    using Cons.prems q by (intro Cons.IH) auto
  finally show ?case using q by simp
qed

text \<open>
  Where \<open>shallowCopy\<close> returns: an array is copied with the same elements in the same
  order, an object with the same keys and the same values, and a value that is not of
  type \<^verbatim>\<open>'object'\<close> is returned as it is.
\<close>

lemma shallowCopy_contents:
  "shallowCopy (JArr xs) = Inr (JArr xs)"
  "distinctKeys ps \<Longrightarrow> shallowCopy (JObj ps) = Inr (JObj ps)"
  "typeof v \<noteq> TObject \<Longrightarrow> shallowCopy v = Inr v"
proof -
  show "shallowCopy (JArr xs) = Inr (JArr xs)"
    by (simp add: shallowCopy_def slice_def)
  show "shallowCopy (JObj ps) = Inr (JObj ps)" if "distinctKeys ps"
    using that copyProps_suffix [of "[]" ps "JObj ps"]
    by (simp add: distinctKeys_def shallowCopy_def Object_keys_def)
  show "shallowCopy v = Inr v" if "typeof v \<noteq> TObject"
    using that by (cases v) (simp_all add: shallowCopy_def)
qed

text \<open>
  C10 at \<^verbatim>\<open>null\<close>: \<^verbatim>\<open>null\<close> is not an array and \<^verbatim>\<open>typeof null\<close> is \<^verbatim>\<open>'object'\<close>, so
  \<open>shallowCopy\<close> asks for the keys of \<^verbatim>\<open>null\<close> and throws the TypeError of
  \<^verbatim>\<open>Object.keys\<close> instead of returning its argument.
\<close>

theorem shallowCopy_null_throws:
  "\<not> isArray JNull \<and> typeof JNull = TObject \<and> Object_keys JNull = Inl TypeError
   \<and> shallowCopy JNull = Inl TypeError"
  by (simp add: shallowCopy_def Object_keys_def)

section \<open>Properties of the JSON functions\<close>

lemma of_char_digitChar: "n < 10 \<Longrightarrow> (of_char (digitChar n) :: nat) = 48 + n"
  by (simp add: digitChar_def)

lemma isDigit_digitChar: "n < 10 \<Longrightarrow> isDigit (digitChar n)"
  by (simp add: isDigit_def of_char_digitChar)

lemma digitVal_digitChar: "n < 10 \<Longrightarrow> digitVal (digitChar n) = n"
  by (simp add: digitVal_def of_char_digitChar)

lemma digits_isDigit: "c \<in> set (digits n) \<Longrightarrow> isDigit c"
proof (induction n arbitrary: c rule: digits.induct)
  case (1 n)
  then show ?case
    by (subst (asm) (2) digits.simps) (auto simp: isDigit_digitChar split: if_splits)
qed

lemma digits_nonempty: "digits n \<noteq> []"
  by (subst digits.simps) simp

lemma digits_value: "foldl (\<lambda>a d. 10 * a + digitVal d) 0 (digits n) = n"
proof (induction n rule: digits.induct)
  case (1 n)
  show ?case
  proof (cases "n < 10")
    case True
    then show ?thesis by (subst digits.simps) (simp add: digitVal_digitChar)
  next
    case False
    with 1 show ?thesis by (subst digits.simps) (simp add: digitVal_digitChar)
  qed
qed

lemma char_of_48: "char_of (48::nat) = CHR ''0''"
  by code_simp

lemma digits_zero: "digits 0 = ''0''"
  by (subst digits.simps) (simp add: digitChar_def char_of_48)

lemma digits_hd: "0 < n \<Longrightarrow> hd (digits n) \<noteq> CHR ''0''"
proof (induction n rule: digits.induct)
  case (1 n)
  show ?case
  proof (cases "n < 10")
    case True
    have "(of_char (digitChar n) :: nat) \<noteq> of_char CHR ''0''"
      using True 1(2) by (simp add: of_char_digitChar)
    then have "digitChar n \<noteq> CHR ''0''" by auto
    with True show ?thesis by (subst digits.simps) simp
  next
    case False
    then have "hd (digits (n div 10)) \<noteq> CHR ''0''" using 1 by simp
    with False show ?thesis
      by (subst digits.simps) (simp add: digits_nonempty)
  qed
qed

lemma delim_not_digit: "delim rest \<Longrightarrow> rest \<noteq> [] \<Longrightarrow> \<not> isDigit (hd rest) \<and> hd rest \<notin> set ''.eE''"
  by (auto simp: delim_def isDigit_def)

lemma takeWhile_digits:
  assumes "delim rest"
  shows "takeWhile isDigit (digits n @ rest) = digits n"
    and "dropWhile isDigit (digits n @ rest) = rest"
proof -
  have a: "\<And>c. c \<in> set (digits n) \<Longrightarrow> isDigit c" by (rule digits_isDigit)
  have b: "takeWhile isDigit rest = []" "dropWhile isDigit rest = rest"
    using delim_not_digit [OF assms] by (cases rest; simp)+
  show "takeWhile isDigit (digits n @ rest) = digits n"
    using a b by (simp add: takeWhile_append2)
  show "dropWhile isDigit (digits n @ rest) = rest"
    using a b by (simp add: dropWhile_append2)
qed

lemma parse_nat_digits:
  assumes "delim rest"
  shows "parse_nat (digits n @ rest) = Some (n, rest)"
proof (cases "n = 0")
  case True
  show ?thesis
    using delim_not_digit [OF assms] unfolding True digits_zero parse_nat_def
    by (auto simp: isDigit_def digitVal_def)
next
  case False
  obtain c cs where d: "digits n = c # cs" using digits_nonempty [of n] by (cases "digits n") auto
  have c: "isDigit c" "c \<noteq> CHR ''0''"
    using digits_isDigit [of c n] digits_hd [of n] False d by auto
  have "parse_nat ((c # cs) @ rest) = Some (foldl (\<lambda>a d. 10 * a + digitVal d) 0 (c # cs), rest)"
    using c takeWhile_digits [OF assms, of n] delim_not_digit [OF assms] unfolding parse_nat_def d
    by auto
  then show ?thesis using digits_value [of n] unfolding d by simp
qed

lemma parse_number_roundtrip:
  assumes "delim rest"
  shows "parse_number (numberToString i @ rest) = Some (JNum i, rest)"
proof (cases "i < 0")
  case True
  then show ?thesis
    unfolding parse_number_def numberToString_def
    by (simp add: parse_nat_digits [OF assms])
next
  case False
  obtain c cs where d: "digits (nat i) = c # cs"
    using digits_nonempty [of "nat i"] by (cases "digits (nat i)") auto
  have "isDigit c" using digits_isDigit [of c "nat i"] d by simp
  then have c: "c \<noteq> CHR ''-''" by (auto simp: isDigit_def)
  have "parse_number ((c # cs) @ rest) = Some (JNum i, rest)"
    using c False parse_nat_digits [OF assms, of "nat i"] unfolding parse_number_def d
    by simp
  then show ?thesis using False unfolding numberToString_def d by simp
qed


lemma hexVal_hexDigit: "k < 16 \<Longrightarrow> hexVal (hexDigit k) = Some k"
  by (auto simp: hexVal_def hexDigit_def Let_def)

lemma hexVal_zero: "hexVal CHR ''0'' = Some 0"
  by (simp add: hexVal_def)

lemma parse_string_control:
  assumes "(of_char c :: nat) < 32"
  shows "parse_string (BSLASH # CHR ''u'' # CHR ''0'' # CHR ''0'' #
            hexDigit (of_char c div 16) # hexDigit (of_char c mod 16) # s)
         = consResult c (parse_string s)"
proof -
  define n :: nat where "n = of_char c"
  have n: "n < 32" "char_of n = c" using assms by (simp_all add: n_def)
  have h: "hexVal (hexDigit (n div 16)) = Some (n div 16)"
    "hexVal (hexDigit (n mod 16)) = Some (n mod 16)"
    using n(1) by (simp_all add: hexVal_hexDigit)
  have "hex4 CHR ''0'' CHR ''0'' (hexDigit (n div 16)) (hexDigit (n mod 16)) = Some n"
    by (simp add: hex4_def h hexVal_zero)
  then show ?thesis
    unfolding n_def [symmetric] using n by simp
qed

lemma parse_string_quoteChar:
  "parse_string (quoteChar c @ s) = consResult c (parse_string s)"
proof -
  consider (esc) "c \<in> {DQUOTE, BSLASH, CHR 0x08, CHR 0x0C, CHR 0x0A, CHR 0x0D, CHR 0x09}"
    | (ctl) "c \<notin> {DQUOTE, BSLASH, CHR 0x08, CHR 0x0C, CHR 0x0A, CHR 0x0D, CHR 0x09}" "(of_char c :: nat) < 32"
    | (lit) "c \<notin> {DQUOTE, BSLASH, CHR 0x08, CHR 0x0C, CHR 0x0A, CHR 0x0D, CHR 0x09}" "\<not> (of_char c :: nat) < 32"
    by blast
  then show ?thesis
  proof cases
    case esc
    then show ?thesis by (auto simp: quoteChar_def unescape_def)
  next
    case ctl
    then show ?thesis using parse_string_control [OF ctl(2), of s] by (simp add: quoteChar_def)
  next
    case lit
    then show ?thesis by (simp add: quoteChar_def)
  qed
qed

lemma parse_string_dquote: "parse_string (DQUOTE # rest) = Some ([], rest)"
  by simp

lemma parse_string_roundtrip:
  "parse_string (concat (map quoteChar s) @ DQUOTE # rest) = Some (s, rest)"
  by (induction s)
     (simp_all add: parse_string_quoteChar parse_string_dquote consResult_def del: parse_string.simps)

lemma parse_string_quote:
  "parse_string (tl (quote s) @ rest) = Some (s, rest)"
  using parse_string_roundtrip [of s rest] by (simp add: quote_def)

lemma skipWs_id: "s = [] \<or> \<not> isWs (hd s) \<Longrightarrow> skipWs s = s"
  by (cases s) (auto simp: skipWs_def)

lemma parse_value_null: "parse_value (Suc n) (''null'' @ rest) = Some (JNull, rest)"
  by simp

lemma parse_value_true: "parse_value (Suc n) (''true'' @ rest) = Some (JBool True, rest)"
  by simp

lemma parse_value_false: "parse_value (Suc n) (''false'' @ rest) = Some (JBool False, rest)"
  by simp

lemma parse_value_string:
  "parse_value (Suc n) (DQUOTE # s) =
     (case parse_string s of None \<Rightarrow> None | Some (str, r) \<Rightarrow> Some (JStr str, r))"
  by simp

lemma parse_value_empty_array: "parse_value (Suc n) (''[]'' @ rest) = Some (JArr [], rest)"
  by (simp add: skipWs_def isWs_def)

lemma parse_value_empty_object: "parse_value (Suc n) (''{}'' @ rest) = Some (JObj [], rest)"
  by (simp add: skipWs_def isWs_def)

lemma parse_value_array:
  "\<not> prefix '']'' cs \<Longrightarrow> cs = [] \<or> \<not> isWs (hd cs) \<Longrightarrow>
   parse_value (Suc n) (CHR ''['' # cs) =
     (case parse_elements n cs of None \<Rightarrow> None | Some (xs, r) \<Rightarrow> Some (JArr xs, r))"
  by (simp add: skipWs_id)

lemma parse_value_object:
  "\<not> prefix ''}'' cs \<Longrightarrow> cs = [] \<or> \<not> isWs (hd cs) \<Longrightarrow>
   parse_value (Suc n) (CHR ''{'' # cs) =
     (case parse_members n [] cs of None \<Rightarrow> None | Some (ps, r) \<Rightarrow> Some (JObj ps, r))"
  by (simp add: skipWs_id)

lemma isDigit_not_opening:
  "c = CHR ''-'' \<or> isDigit c \<Longrightarrow>
   c \<noteq> CHR ''n'' \<and> c \<noteq> CHR ''t'' \<and> c \<noteq> CHR ''f'' \<and> c \<noteq> DQUOTE \<and> c \<noteq> CHR ''['' \<and> c \<noteq> CHR ''{''"
  by (auto simp: isDigit_def)

lemma parse_value_number:
  "c = CHR ''-'' \<or> isDigit c \<Longrightarrow> parse_value (Suc n) (c # cs) = parse_number (c # cs)"
  using isDigit_not_opening [of c] by simp

lemma parse_elements_step:
  "parse_value n s = Some (v, c # r) \<Longrightarrow> \<not> isWs c \<Longrightarrow>
   parse_elements (Suc n) s =
     (if c = CHR '','' then
        (case parse_elements n (skipWs r) of None \<Rightarrow> None | Some (vs, r'') \<Rightarrow> Some (v # vs, r''))
      else if c = CHR '']'' then Some ([v], r) else None)"
  by (simp add: skipWs_id)

lemma parse_members_step:
  "parse_string cs = Some (k, CHR '':'' # r) \<Longrightarrow> parse_value n (skipWs r) = Some (v, d # r3) \<Longrightarrow>
   \<not> isWs d \<Longrightarrow>
   parse_members (Suc n) acc (DQUOTE # cs) =
     (if d = CHR '','' then parse_members n (setProp acc k v) (skipWs r3)
      else if d = CHR ''}'' then Some (setProp acc k v, r3) else None)"
  by (simp add: skipWs_id isWs_def)

declare parse_value.simps [simp del] parse_elements.simps [simp del] parse_members.simps [simp del]

lemma numberToString_start:
  "\<exists>c cs. numberToString i = c # cs \<and> (c = CHR ''-'' \<or> isDigit c)"
proof (cases "i < 0")
  case True
  then show ?thesis by (simp add: numberToString_def)
next
  case False
  obtain c cs where d: "digits (nat i) = c # cs"
    using digits_nonempty [of "nat i"] by (cases "digits (nat i)") auto
  have "isDigit c" using digits_isDigit [of c "nat i"] d by simp
  with d False show ?thesis by (simp add: numberToString_def)
qed

lemma stringify_tokenStart:
  assumes "JSON_stringify v = Some t"
  shows "tokenStart t"
proof (cases v)
  case (JNum i)
  obtain c cs where "numberToString i = c # cs" "c = CHR ''-'' \<or> isDigit c"
    using numberToString_start by blast
  with assms JNum show ?thesis by (auto simp: tokenStart_def isWs_def isDigit_def)
qed (use assms in \<open>auto simp: tokenStart_def isWs_def quote_def split: if_splits\<close>)

lemma tokenStart_skipWs: "tokenStart t \<Longrightarrow> skipWs t = t"
  by (cases t) (auto simp: tokenStart_def skipWs_def)

lemma join_tokenStart: "ts \<noteq> [] \<Longrightarrow> tokenStart (hd ts) \<Longrightarrow> tokenStart (join ts @ s)"
proof (cases ts)
  case Nil
  then show "ts \<noteq> [] \<Longrightarrow> ?thesis" by simp
next
  case (Cons t us)
  assume "tokenStart (hd ts)"
  with Cons show ?thesis by (cases us; cases t) (auto simp: tokenStart_def)
qed


lemma serializable_stringify: "serializable v \<Longrightarrow> \<exists>t. JSON_stringify v = Some t"
  by (cases v) simp_all

lemma parse_elements_roundtrip:
  assumes "\<And>x t n rest. x \<in> set xs \<Longrightarrow> JSON_stringify x = Some t \<Longrightarrow> delim rest \<Longrightarrow>
             2 * length (t @ rest) + 1 \<le> n \<Longrightarrow> parse_value n (t @ rest) = Some (x, rest)"
    and "list_all serializable xs" and "xs \<noteq> []"
    and "2 * length (join (stringify_elements xs) @ CHR '']'' # rest) + 2 \<le> n"
  shows "parse_elements n (join (stringify_elements xs) @ CHR '']'' # rest) = Some (xs, rest)"
  using assms
proof (induction xs arbitrary: n)
  case Nil
  then show ?case by simp
next
  case (Cons x xs)
  obtain t where t: "JSON_stringify x = Some t"
    using Cons.prems(2) serializable_stringify [of x] by auto
  obtain m where m: "n = Suc m" using Cons.prems(4) by (cases n) auto
  show ?case
  proof (cases xs)
    case Nil
    have "parse_value m (t @ CHR '']'' # rest) = Some (x, CHR '']'' # rest)"
      using Cons.prems(4) by (intro Cons.prems(1)) (simp_all add: t delim_def Nil m)
    from parse_elements_step [OF this] show ?thesis
      by (simp add: isWs_def t Nil m)
  next
    case (Cons y ys)
    define J where "J = join (stringify_elements (y # ys)) @ CHR '']'' # rest"
    have eq: "join (stringify_elements (x # xs)) @ CHR '']'' # rest = t @ CHR '','' # J"
      by (simp add: t Cons J_def)
    have fuel: "2 * length (t @ CHR '','' # J) + 1 \<le> m" "2 * length J + 2 \<le> m"
      using Cons.prems(4) unfolding eq m by simp_all
    have pv: "parse_value m (t @ CHR '','' # J) = Some (x, CHR '','' # J)"
      using fuel(1) by (intro Cons.prems(1)) (simp_all add: t delim_def)
    obtain u where u: "JSON_stringify y = Some u"
      using Cons.prems(2) Cons serializable_stringify [of y] by auto
    have "tokenStart J"
      unfolding J_def using stringify_tokenStart [OF u]
      by (intro join_tokenStart) (simp_all add: u)
    then have skip: "skipWs J = J" by (rule tokenStart_skipWs)
    have rec: "parse_elements m J = Some (xs, rest)"
      unfolding J_def Cons [symmetric]
      using fuel(2) Cons.prems(1,2) Cons
      by (intro Cons.IH) (simp_all add: J_def)
    from parse_elements_step [OF pv] show ?thesis
      unfolding eq m by (simp add: isWs_def skip rec)
  qed
qed

lemma join_Cons_hd: "join ((c # w) # ts) @ s = c # tl (join ((c # w) # ts) @ s)"
  by (cases ts) simp_all

lemma parse_members_roundtrip:
  assumes "\<And>p t n rest. p \<in> set ps \<Longrightarrow> JSON_stringify (snd p) = Some t \<Longrightarrow> delim rest \<Longrightarrow>
             2 * length (t @ rest) + 1 \<le> n \<Longrightarrow> parse_value n (t @ rest) = Some (snd p, rest)"
    and "list_all (\<lambda>p. serializable (snd p)) ps" and "ps \<noteq> []"
    and "distinct (map fst (acc @ ps))"
    and "2 * length (join (stringify_members ps) @ CHR ''}'' # rest) + 2 \<le> n"
  shows "parse_members n acc (join (stringify_members ps) @ CHR ''}'' # rest) = Some (acc @ ps, rest)"
  using assms
proof (induction ps arbitrary: n acc)
  case Nil
  then show ?case by simp
next
  case (Cons p ps)
  obtain k v where p: "p = (k, v)" by (cases p)
  obtain t where t: "JSON_stringify v = Some t"
    using Cons.prems(2) p serializable_stringify [of v] by auto
  obtain m where m: "n = Suc m" using Cons.prems(5) by (cases n) auto
  have sp: "setProp acc k v = acc @ [(k, v)]"
    using Cons.prems(4) p by (intro setProp_append) auto
  have ts: "skipWs (t @ r) = t @ r" for r
    using stringify_tokenStart [OF t] by (cases t) (auto simp: tokenStart_def skipWs_def)
  show ?case
  proof (cases ps)
    case Nil
    define R where "R = CHR ''}'' # rest"
    have eq: "join (stringify_members (p # ps)) @ CHR ''}'' # rest
        = DQUOTE # concat (map quoteChar k) @ DQUOTE # CHR '':'' # t @ R"
      by (simp add: p t Nil quote_def R_def)
    have fuel: "2 * length (t @ R) + 1 \<le> m"
      using Cons.prems(5) unfolding eq m by simp
    have ps: "parse_string (concat (map quoteChar k) @ DQUOTE # CHR '':'' # t @ R)
        = Some (k, CHR '':'' # t @ R)"
      by (rule parse_string_roundtrip)
    have pv: "parse_value m (skipWs (t @ R)) = Some (v, CHR ''}'' # rest)"
      unfolding ts using fuel Cons.prems(1) [of p t R m] t p by (simp add: delim_def R_def)
    from parse_members_step [OF ps pv] show ?thesis
      unfolding eq m by (simp add: isWs_def sp p Nil)
  next
    case (Cons q qs)
    define J where "J = join (stringify_members (q # qs)) @ CHR ''}'' # rest"
    define R where "R = CHR '','' # J"
    obtain k' v' where q: "q = (k', v')" by (cases q)
    obtain u where u: "JSON_stringify v' = Some u"
      using Cons.prems(2) Cons q serializable_stringify [of v'] by auto
    have eq: "join (stringify_members (p # ps)) @ CHR ''}'' # rest
        = DQUOTE # concat (map quoteChar k) @ DQUOTE # CHR '':'' # t @ R"
      by (simp add: p t Cons q u quote_def R_def J_def)
    have fuel: "2 * length (t @ R) + 1 \<le> m" "2 * length J + 2 \<le> m"
      using Cons.prems(5) unfolding eq m R_def by simp_all
    have ps: "parse_string (concat (map quoteChar k) @ DQUOTE # CHR '':'' # t @ R)
        = Some (k, CHR '':'' # t @ R)"
      by (rule parse_string_roundtrip)
    have pv: "parse_value m (skipWs (t @ R)) = Some (v, CHR '','' # J)"
      unfolding ts using fuel(1) Cons.prems(1) [of p t R m] t p by (simp add: delim_def R_def)
    have "J = DQUOTE # tl J"
      unfolding J_def using join_Cons_hd [of DQUOTE _ "stringify_members qs"]
      by (simp add: q u quote_def)
    then obtain w where "J = DQUOTE # w" by blast
    then have skip: "skipWs J = J"
      by (simp add: skipWs_def isWs_def)
    have rec: "parse_members m (acc @ [(k, v)]) J = Some ((acc @ [(k, v)]) @ ps, rest)"
      unfolding J_def Cons [symmetric]
      using fuel(2) Cons.prems(1,2,4) Cons p
      by (intro Cons.IH) (simp_all add: J_def)
    from parse_members_step [OF ps pv] show ?thesis
      unfolding eq m by (simp add: isWs_def sp skip rec p)
  qed
qed


lemma parse_value_roundtrip:
  "serializable v \<Longrightarrow> JSON_stringify v = Some t \<Longrightarrow> delim rest \<Longrightarrow>
   2 * length (t @ rest) + 1 \<le> n \<Longrightarrow> parse_value n (t @ rest) = Some (v, rest)"
proof (induction v arbitrary: t n rest)
  case JUndefined
  then show ?case by simp
next
  case JNull
  then obtain m where "n = Suc m" by (cases n) auto
  with JNull show ?case using parse_value_null [of m rest] by simp
next
  case (JBool b)
  then obtain m where "n = Suc m" by (cases n) auto
  with JBool show ?case
    using parse_value_true [of m rest] parse_value_false [of m rest] by (cases b) simp_all
next
  case (JNum i)
  then obtain m where m: "n = Suc m" by (cases n) auto
  obtain c cs where c: "numberToString i = c # cs" "c = CHR ''-'' \<or> isDigit c"
    using numberToString_start by blast
  have "parse_value (Suc m) ((c # cs) @ rest) = parse_number ((c # cs) @ rest)"
    using parse_value_number [OF c(2)] by simp
  then show ?case
    using JNum.prems parse_number_roundtrip [of rest i] by (simp add: m c(1) [symmetric])
next
  case (JStr s)
  then obtain m where m: "n = Suc m" by (cases n) auto
  have "parse_value (Suc m) (DQUOTE # concat (map quoteChar s) @ DQUOTE # rest) = Some (JStr s, rest)"
    unfolding parse_value_string by (simp add: parse_string_roundtrip)
  moreover have "t = DQUOTE # concat (map quoteChar s) @ [DQUOTE]"
    using JStr.prems(2) by (simp add: quote_def)
  ultimately show ?case by (simp add: m)
next
  case (JFun f)
  then show ?case by simp
next
  case (JArr xs)
  then obtain m where m: "n = Suc m" by (cases n) auto
  show ?case
  proof (cases xs)
    case Nil
    with JArr.prems show ?thesis using parse_value_empty_array [of m rest] by (simp add: m)
  next
    case (Cons y ys)
    define J where "J = join (stringify_elements xs) @ CHR '']'' # rest"
    have t: "t @ rest = CHR ''['' # J" using JArr.prems(2) by (simp add: J_def)
    obtain u where u: "JSON_stringify y = Some u"
      using JArr.prems(1) Cons serializable_stringify [of y] by auto
    have ts: "tokenStart J"
      unfolding J_def Cons using stringify_tokenStart [OF u]
      by (intro join_tokenStart) (simp_all add: u)
    then have a: "\<not> prefix '']'' J" "J = [] \<or> \<not> isWs (hd J)"
      by (auto simp: tokenStart_def prefix_def)
    have fuel: "2 * length J + 2 \<le> m" using JArr.prems(4) unfolding t m by simp
    have ih: "parse_value n' (t' @ rest') = Some (x, rest')"
      if "x \<in> set xs" "JSON_stringify x = Some t'" "delim rest'"
        "2 * length (t' @ rest') + 1 \<le> n'" for x t' n' rest'
    proof (rule JArr.IH [OF that(1)])
      show "serializable x" using JArr.prems(1) that(1) by (simp add: list_all_iff)
    qed (use that in auto)
    have "parse_elements m J = Some (xs, rest)"
      unfolding J_def using JArr.prems(1) Cons fuel
      by (intro parse_elements_roundtrip ih) (simp_all add: J_def)
    then show ?thesis
      unfolding t m parse_value_array [OF a] by simp
  qed
next
  case (JObj ps)
  then obtain m where m: "n = Suc m" by (cases n) auto
  show ?case
  proof (cases ps)
    case Nil
    with JObj.prems show ?thesis using parse_value_empty_object [of m rest] by (simp add: m)
  next
    case (Cons q qs)
    define J where "J = join (stringify_members ps) @ CHR ''}'' # rest"
    have t: "t @ rest = CHR ''{'' # J" using JObj.prems(2) by (simp add: J_def)
    obtain k v where q: "q = (k, v)" by (cases q)
    obtain u where u: "JSON_stringify v = Some u"
      using JObj.prems(1) Cons q serializable_stringify [of v] by auto
    have "J = DQUOTE # tl J"
      unfolding J_def Cons using join_Cons_hd [of DQUOTE _ "stringify_members qs"]
      by (simp add: q u quote_def)
    then obtain w where "J = DQUOTE # w" by blast
    then have a: "\<not> prefix ''}'' J" "J = [] \<or> \<not> isWs (hd J)"
      by (simp_all add: isWs_def)
    have fuel: "2 * length J + 2 \<le> m" using JObj.prems(4) unfolding t m by simp
    have ih: "parse_value n' (t' @ rest') = Some (snd p, rest')"
      if "p \<in> set ps" "JSON_stringify (snd p) = Some t'" "delim rest'"
        "2 * length (t' @ rest') + 1 \<le> n'" for p t' n' rest'
    proof (rule JObj.IH [OF that(1)])
      show "snd p \<in> Basic_BNFs.snds p" by (cases p) simp
      show "serializable (snd p)" using JObj.prems(1) that(1) by (simp add: list_all_iff)
    qed (use that in auto)
    have "parse_members m [] J = Some ([] @ ps, rest)"
      unfolding J_def using JObj.prems(1) Cons fuel
      by (intro parse_members_roundtrip ih) (simp_all add: J_def)
    then show ?thesis
      unfolding t m parse_value_object [OF a] by simp
  qed
qed

lemma JSON_parse_stringify:
  assumes "serializable v" "JSON_stringify v = Some t"
  shows "JSON_parse t = Inr v"
proof -
  have "parse_value (2 * length t + 1) (t @ []) = Some (v, [])"
    using assms by (intro parse_value_roundtrip) (simp_all add: delim_def)
  moreover have "skipWs t = t"
    using stringify_tokenStart [OF assms(2)] by (rule tokenStart_skipWs)
  ultimately show ?thesis by (simp add: JSON_parse_def skipWs_def)
qed

lemma deepCopy_serializable:
  assumes "serializable v" "typeof v = TObject"
  shows "deepCopy v = Inr v"
proof -
  obtain t where t: "JSON_stringify v = Some t"
    using serializable_stringify [OF assms(1)] by blast
  with JSON_parse_stringify [OF assms(1) t] assms(2) show ?thesis
    by (simp add: deepCopy_def)
qed

lemma deepEquals_same: "typeof v = TObject \<Longrightarrow> deepEquals sameRef v v"
  by (simp add: deepEquals_def)


text \<open>
  C9: for a JSON-serializable value with \<^verbatim>\<open>typeof\<close> \<^verbatim>\<open>'object'\<close> (an array, an object or
  \<^verbatim>\<open>null\<close>, without \<^verbatim>\<open>undefined\<close> and functions), \<open>deepCopy\<close> returns a value and
  \<open>deepEquals\<close> of the copy and the original is true, whether or not the two are the same
  reference; a value of any other type is returned as it is.
\<close>

theorem deepCopy_deepEquals:
  "(serializable obj \<and> typeof obj = TObject \<longrightarrow>
      (case deepCopy obj of Inl e \<Rightarrow> False | Inr copy \<Rightarrow> deepEquals sameRef copy obj))
   \<and> (typeof v \<noteq> TObject \<longrightarrow> deepCopy v = Inr v)"
  by (simp add: deepCopy_serializable deepEquals_same) (simp add: deepCopy_def)

theorem deepCopy_deepEquals_witness:
  "serializable (JObj [(''a'', JArr [JNum 1, JStr ''x''])]) \<and> typeof (JObj [(''a'', JArr [JNum 1, JStr ''x''])]) = TObject
   \<and> (case deepCopy (JObj [(''a'', JArr [JNum 1, JStr ''x''])]) of Inl e \<Rightarrow> False
        | Inr copy \<Rightarrow> deepEquals (\<lambda>a b. False) copy (JObj [(''a'', JArr [JNum 1, JStr ''x''])]))
   \<and> typeof (JNum 5) \<noteq> TObject \<and> deepCopy (JNum 5) = Inr (JNum 5)"
  using deepCopy_deepEquals [of "JObj [(''a'', JArr [JNum 1, JStr ''x''])]" "\<lambda>a b. False" "JNum 5"]
  by simp

end
